theory Spec2Isabelle
  imports Complex_Main
begin

section \<open>JavaScript values used by the two source files\<close>

text \<open>
  \<^verbatim>\<open>String.prototype.startsWith\<close> with an ASCII search string: the subject starts with the
  search string when its first characters are the search string.
\<close>

definition startsWith :: "string \<Rightarrow> string \<Rightarrow> bool" where
  "startsWith s p = (take (length p) s = p)"

text \<open>
  Truthiness of a value of type \<^verbatim>\<open>string | null\<close>: \<^verbatim>\<open>null\<close> and the empty string are
  falsy, every other string is truthy.
\<close>

fun truthy_string :: "string option \<Rightarrow> bool" where
  "truthy_string None = False"
| "truthy_string (Some s) = (s \<noteq> [])"

text \<open>
  Numbers. The sidebar computes with pixel counts: they are modelled as unbounded integers,
  together with \<^verbatim>\<open>NaN\<close>, which \<^verbatim>\<open>parseInt\<close> returns and arithmetic propagates. (Fractions,
  infinities and the rounding of integers beyond \<open>2^53\<close> are outside the model.)
\<close>

datatype number = NaN | Num int

text \<open>Truthiness of a number: \<^verbatim>\<open>NaN\<close> and \<open>0\<close> are falsy.\<close>

fun truthy :: "number \<Rightarrow> bool" where
  "truthy NaN = False"
| "truthy (Num n) = (n \<noteq> 0)"

text \<open>
  \<^verbatim>\<open>ToNumber\<close> of a value of type \<^verbatim>\<open>number | null\<close>, as the operator \<^verbatim>\<open>+\<close> applies it to a
  non-string operand: \<^verbatim>\<open>null\<close> (\<open>None\<close>) becomes \<open>0\<close>.
\<close>

fun ToNumber :: "number option \<Rightarrow> number" where
  "ToNumber None = Num 0"
| "ToNumber (Some x) = x"

fun js_plus :: "number \<Rightarrow> number \<Rightarrow> number" where
  "js_plus (Num a) (Num b) = Num (a + b)"
| "js_plus _ _ = NaN"

fun js_minus :: "number \<Rightarrow> number \<Rightarrow> number" where
  "js_minus (Num a) (Num b) = Num (a - b)"
| "js_minus _ _ = NaN"

text \<open>\<^verbatim>\<open>Math.max\<close> and \<^verbatim>\<open>Math.min\<close> of two arguments: \<^verbatim>\<open>NaN\<close> if either argument is.\<close>

fun Math_max :: "number \<Rightarrow> number \<Rightarrow> number" where
  "Math_max (Num a) (Num b) = Num (max a b)"
| "Math_max _ _ = NaN"

fun Math_min :: "number \<Rightarrow> number \<Rightarrow> number" where
  "Math_min (Num a) (Num b) = Num (min a b)"
| "Math_min _ _ = NaN"

text \<open>Decimal digits, as ASCII characters.\<close>

definition isDigit :: "char \<Rightarrow> bool" where
  "isDigit c = (48 \<le> (of_char c :: nat) \<and> (of_char c :: nat) \<le> 57)"

definition digit_val :: "char \<Rightarrow> nat" where
  "digit_val c = of_char c - 48"

definition digit_char :: "nat \<Rightarrow> char" where
  "digit_char d = char_of (48 + d)"

fun digits_of :: "nat \<Rightarrow> string" where
  "digits_of n =
     (if n < 10 then [digit_char n] else digits_of (n div 10) @ [digit_char (n mod 10)])"

declare digits_of.simps [simp del]

definition digits_val :: "string \<Rightarrow> nat" where
  "digits_val Z = foldl (\<lambda>acc c. 10 * acc + digit_val c) 0 Z"

text \<open>\<^verbatim>\<open>Number.prototype.toString\<close> in radix 10, on the numbers of the model.\<close>

fun toString :: "number \<Rightarrow> string" where
  "toString NaN = ''NaN''"
| "toString (Num n) = (if n < 0 then CHR ''-'' # digits_of (nat (- n)) else digits_of (nat n))"

text \<open>The white space \<^verbatim>\<open>parseInt\<close> skips, as far as it is ASCII.\<close>

definition isWhiteSpace :: "char \<Rightarrow> bool" where
  "isWhiteSpace c = (c \<in> set [CHR 0x09, CHR 0x0A, CHR 0x0B, CHR 0x0C, CHR 0x0D, CHR 0x20])"

text \<open>
  \<^verbatim>\<open>parseInt(v, 10)\<close> for \<open>v\<close> of type \<^verbatim>\<open>string | null\<close>, following the language
  definition: the argument is converted to a string (\<^verbatim>\<open>null\<close> to \<^verbatim>\<open>"null"\<close>), leading white
  space is skipped, an optional sign is read, then the longest run of decimal digits; with no
  digit the result is \<^verbatim>\<open>NaN\<close>.
\<close>

definition parseInt :: "string option \<Rightarrow> number" where
  "parseInt v =
     (let inputString = (case v of None \<Rightarrow> ''null'' | Some s \<Rightarrow> s);
          S = dropWhile isWhiteSpace inputString;
          sign = (if S \<noteq> [] \<and> hd S = CHR ''-'' then - 1 else 1);
          S1 = (if S \<noteq> [] \<and> (hd S = CHR ''+'' \<or> hd S = CHR ''-'') then tl S else S);
          Z = takeWhile isDigit S1
      in if Z = [] then NaN else Num (sign * int (digits_val Z)))"

section \<open>Timers and the throttled scheduler (ui/lib/throttled-scheduler)\<close>

text \<open>
  The timer facility of the host: a clock in milliseconds, the next free handle, and the
  armed one-shot timers, each with its handle, the time it is due and its callback.
  Callbacks are values of a type \<open>'a\<close> of actions. \<open>setTimeout\<close> arms a timer and returns
  its handle, \<open>clearTimeout\<close> disarms one, and \<open>advance n\<close> lets \<open>n\<close> milliseconds pass with
  control back in the event loop: the timers that are due by then fire, earliest first, and
  are returned.
\<close>

record 'a Timers =
  now :: nat
  nextHandle :: nat
  armed :: "(nat \<times> nat \<times> 'a) list"

definition setTimeout :: "'a \<Rightarrow> nat \<Rightarrow> 'a Timers \<Rightarrow> nat \<times> 'a Timers" where
  "setTimeout f d T =
     (nextHandle T,
      T\<lparr> nextHandle := Suc (nextHandle T),
         armed := armed T @ [(nextHandle T, now T + d, f)] \<rparr>)"

definition clearTimeout :: "nat \<Rightarrow> 'a Timers \<Rightarrow> 'a Timers" where
  "clearTimeout h T = T\<lparr> armed := filter (\<lambda>(i, due, f). i \<noteq> h) (armed T) \<rparr>"

definition advance :: "nat \<Rightarrow> 'a Timers \<Rightarrow> (nat \<times> nat \<times> 'a) list \<times> 'a Timers" where
  "advance n T =
     (let t = now T + n
      in (sort_key (\<lambda>(i, due, f). due) (filter (\<lambda>(i, due, f). due \<le> t) (armed T)),
          T\<lparr> now := t, armed := filter (\<lambda>(i, due, f). \<not> due \<le> t) (armed T) \<rparr>))"

text \<open>
  Modelled from the spec: the class \<^verbatim>\<open>ThrottledScheduler\<close> (module
  \<^verbatim>\<open>./lib/throttled-scheduler\<close>) is not among the sources. The specification gives it a
  fixed delay, set at construction, and an owned optional timer handle: \<^verbatim>\<open>queue(action)\<close>
  cancels the timer of any previous call that has not run yet and arms a new one that runs
  \<open>action\<close> once the delay has elapsed; when the timer fires, the handle is cleared and the
  action invoked.
\<close>

record ThrottledScheduler =
  delay :: nat
  timeoutId :: "nat option"

definition new_ThrottledScheduler :: "nat \<Rightarrow> ThrottledScheduler" where
  "new_ThrottledScheduler d = \<lparr> delay = d, timeoutId = None \<rparr>"

definition queue :: "'a \<Rightarrow> ThrottledScheduler \<times> 'a Timers \<Rightarrow> ThrottledScheduler \<times> 'a Timers" where
  "queue action = (\<lambda>(s, T).
     (let T1 = (case timeoutId s of None \<Rightarrow> T | Some h \<Rightarrow> clearTimeout h T);
          (h', T2) = setTimeout action (delay s) T1
      in (s\<lparr> timeoutId := Some h' \<rparr>, T2)))"

text \<open>
  A scheduler in its host: the scheduler, the host's timers and the actions executed so
  far, in order. An event is a call of \<^verbatim>\<open>queue\<close> or the passing of time.
\<close>

record 'a Host =
  scheduler :: ThrottledScheduler
  timers :: "'a Timers"
  executed :: "'a list"

datatype 'a event = Queue 'a | Elapse nat

fun step :: "'a Host \<Rightarrow> 'a event \<Rightarrow> 'a Host" where
  "step w (Queue action) =
     (let (s, T) = queue action (scheduler w, timers w)
      in w\<lparr> scheduler := s, timers := T \<rparr>)"
| "step w (Elapse n) =
     (let (fired, T) = advance n (timers w);
          s = (if timeoutId (scheduler w) \<in> Some ` set (map fst fired)
               then (scheduler w)\<lparr> timeoutId := None \<rparr> else scheduler w)
      in w\<lparr> scheduler := s, timers := T, executed := executed w @ map (\<lambda>(i, due, f). f) fired \<rparr>)"

definition run :: "'a Host \<Rightarrow> 'a event list \<Rightarrow> 'a Host" where
  "run w es = foldl step w es"

definition new_Host :: "nat \<Rightarrow> 'a Host" where
  "new_Host d =
     \<lparr> scheduler = new_ThrottledScheduler d,
       timers = \<lparr> now = 0, nextHandle = 1, armed = [] \<rparr>,
       executed = [] \<rparr>"

text \<open>
  A sequence of events stays within one throttle window of delay \<open>D\<close> when every call of
  \<^verbatim>\<open>queue\<close> in it comes less than \<open>D\<close> milliseconds after the call before it; \<open>el\<close> is the time
  elapsed since the last call so far. \<open>settle_time\<close> is the time elapsed after the last
  call of the sequence, and \<open>last_action\<close> the action of that call.
\<close>

fun within_window :: "nat \<Rightarrow> nat \<Rightarrow> 'a event list \<Rightarrow> bool" where
  "within_window D el [] = True"
| "within_window D el (Elapse n # es) = within_window D (el + n) es"
| "within_window D el (Queue action # es) = (el < D \<and> within_window D 0 es)"

fun settle_time :: "nat \<Rightarrow> 'a event list \<Rightarrow> nat" where
  "settle_time el [] = el"
| "settle_time el (Elapse n # es) = settle_time (el + n) es"
| "settle_time el (Queue action # es) = settle_time 0 es"

fun last_action :: "'a \<Rightarrow> 'a event list \<Rightarrow> 'a" where
  "last_action a [] = a"
| "last_action a (Elapse n # es) = last_action a es"
| "last_action a (Queue action # es) = last_action action es"

section \<open>The resizable sidebar (ui/sidebar.tsx)\<close>

text \<open>\<^verbatim>\<open>localStorage\<close>: string values under string keys.\<close>

type_synonym Storage = "string \<rightharpoonup> string"

text \<open>
  The two deferred writes the sidebar hands to its scheduler, and what each does to the
  storage when it runs.
\<close>

datatype StorageAction = SetItem string string | RemoveItem string

fun perform :: "StorageAction \<Rightarrow> Storage \<Rightarrow> Storage" where
  "perform (SetItem k v) localStorage = localStorage(k \<mapsto> v)"
| "perform (RemoveItem k) localStorage = localStorage(k := None)"

record ISidebarProps =
  defaultWidth :: number
  maximumWidth :: number
  minimumWidth :: number

definition defaultProps :: ISidebarProps where
  "defaultProps = \<lparr> defaultWidth = Num 250, maximumWidth = Num 350, minimumWidth = Num 150 \<rparr>"

text \<open>The component state: \<open>width\<close> is optional, \<open>None\<close> is \<^verbatim>\<open>undefined\<close>.\<close>

record ISidebarState =
  width :: "number option"

text \<open>
  The component. \<open>startWidth\<close> has type \<^verbatim>\<open>number | null\<close>, \<open>None\<close> is \<^verbatim>\<open>null\<close>. Before the
  first drag \<open>startWidth\<close> and \<open>startX\<close> are unassigned (\<^verbatim>\<open>undefined\<close>); both are read in
  arithmetic only, where \<^verbatim>\<open>undefined\<close> behaves as \<^verbatim>\<open>NaN\<close>, so \<^verbatim>\<open>NaN\<close> stands for it.
  \<open>listening\<close> says whether the mouse listeners are registered on the document.
\<close>

record Sidebar =
  props :: ISidebarProps
  state :: ISidebarState
  startWidth :: "number option"
  startX :: number
  configWriteScheduler :: ThrottledScheduler
  listening :: bool

record MouseEvent =
  clientX :: number

definition sidebarWidthConfigKey :: string where
  "sidebarWidthConfigKey = ''sidebar-width''"

definition getPersistedWidth :: "Storage \<Rightarrow> number" where
  "getPersistedWidth localStorage = parseInt (localStorage sidebarWidthConfigKey)"

definition new_Sidebar :: "ISidebarProps \<Rightarrow> Storage \<Rightarrow> Sidebar" where
  "new_Sidebar p localStorage =
     \<lparr> props = p,
       state = \<lparr> width = Some (getPersistedWidth localStorage) \<rparr>,
       startWidth = Some NaN,
       startX = NaN,
       configWriteScheduler = new_ThrottledScheduler 300,
       listening = False \<rparr>"

definition setPersistedWidth ::
  "number \<Rightarrow> Sidebar \<times> StorageAction Timers \<Rightarrow> Sidebar \<times> StorageAction Timers" where
  "setPersistedWidth newWidth = (\<lambda>(c, T).
     (let (s, T') = queue (SetItem sidebarWidthConfigKey (toString newWidth))
                      (configWriteScheduler c, T)
      in (c\<lparr> configWriteScheduler := s \<rparr>, T')))"

definition clearPersistedWidth ::
  "Sidebar \<times> StorageAction Timers \<Rightarrow> Sidebar \<times> StorageAction Timers" where
  "clearPersistedWidth = (\<lambda>(c, T).
     (let (s, T') = queue (RemoveItem sidebarWidthConfigKey) (configWriteScheduler c, T)
      in (c\<lparr> configWriteScheduler := s \<rparr>, T')))"

definition getCurrentWidth :: "Sidebar \<Rightarrow> number" where
  "getCurrentWidth c =
     (case width (state c) of
        Some w \<Rightarrow> if truthy w then w else defaultWidth (props c)
      | None \<Rightarrow> defaultWidth (props c))"

definition handleDragStart :: "MouseEvent \<Rightarrow> Sidebar \<Rightarrow> Sidebar" where
  "handleDragStart e c =
     c\<lparr> startX := clientX e,
        startWidth := (if truthy (getCurrentWidth c) then Some (getCurrentWidth c) else None),
        listening := True \<rparr>"

definition handleDragMove ::
  "MouseEvent \<Rightarrow> Sidebar \<times> StorageAction Timers \<Rightarrow> Sidebar \<times> StorageAction Timers" where
  "handleDragMove e = (\<lambda>(c, T).
     (let deltaX = js_minus (clientX e) (startX c);
          newWidth = js_plus (ToNumber (startWidth c)) deltaX;
          newWidthClamped =
            Math_max (minimumWidth (props c)) (Math_min (maximumWidth (props c)) newWidth)
      in setPersistedWidth newWidthClamped
           (c\<lparr> state := \<lparr> width = Some newWidthClamped \<rparr> \<rparr>, T)))"

definition handleDragStop :: "MouseEvent \<Rightarrow> Sidebar \<Rightarrow> Sidebar" where
  "handleDragStop e c = c\<lparr> listening := False \<rparr>"

definition handleDoubleClick ::
  "Sidebar \<times> StorageAction Timers \<Rightarrow> Sidebar \<times> StorageAction Timers" where
  "handleDoubleClick = (\<lambda>(c, T). clearPersistedWidth (c\<lparr> state := \<lparr> width = None \<rparr> \<rparr>, T))"

text \<open>The width \<^verbatim>\<open>render\<close> puts into the style of the sidebar's element.\<close>

definition render_width :: "Sidebar \<Rightarrow> number" where
  "render_width c = getCurrentWidth c"

section \<open>Progress records and the line parser (lib/progress)\<close>

text \<open>
  Modelled from the spec: the record type returned by \<^verbatim>\<open>PullProgressParser.parse\<close>
  (module \<^verbatim>\<open>../progress\<close>) is not among the sources. The data model of the specification
  gives it two variants, \<^verbatim>\<open>Context { text }\<close>, an informational line, and
  \<^verbatim>\<open>Progress { details: { text, percent } }\<close>, a measured step with its completion
  fraction. The discriminant \<^verbatim>\<open>kind\<close> (\<^verbatim>\<open>'context'\<close> or \<^verbatim>\<open>'progress'\<close>) is the constructor.
\<close>

record ProgressDetails =
  details_text :: string
  details_percent :: real

datatype ProgressRecord =
    Context (context_text: string)
  | Progress (details: ProgressDetails)

text \<open>
  Modelled from the spec: \<^verbatim>\<open>PullProgressParser.parse\<close> is not among the sources. The
  specification describes it as a pure function over an ordered list of (matcher,
  constructor) pairs, evaluated top to bottom: the first matcher that recognises the line
  wins and its constructor builds the details of a \<open>Progress\<close> record; a line that no
  matcher recognises falls through to a \<open>Context\<close> record carrying the raw text. The
  formats themselves are not given, so the list is a parameter; a matcher returns the
  captured groups, or \<open>None\<close> when the line does not match.
\<close>

type_synonym format = "(string \<Rightarrow> string list option) \<times> (string list \<Rightarrow> ProgressDetails)"

fun parse :: "format list \<Rightarrow> string \<Rightarrow> ProgressRecord" where
  "parse [] line = Context line"
| "parse ((matcher, constructor) # formats) line =
     (case matcher line of
        Some groups \<Rightarrow> Progress (constructor groups)
      | None \<Rightarrow> parse formats line)"

section \<open>Pulling with progress (lib/git/pull.ts)\<close>

text \<open>The event handed to \<^verbatim>\<open>progressCallback\<close>; an absent optional field is \<open>None\<close>.\<close>

record IPullProgress =
  kind :: string
  title :: string
  description :: "string option"
  pvalue :: "real option"
  remote :: string

text \<open>
  The parsed record as \<^verbatim>\<open>pull.ts\<close> reads it. The declaration of the type that
  \<^verbatim>\<open>parser.parse\<close> returns is not among the sources. The listener reads the record's kind
  with its text or the text of its details (lines 33 to 44), and, on either kind and without
  narrowing, a top-level \<^verbatim>\<open>percent\<close> (line 45). So the record is one of the two variants
  together with that top-level field; what the parser stores there, a number or nothing
  (\<open>None\<close> for \<^verbatim>\<open>undefined\<close>), is the parser's business.
\<close>

record ParsedLine =
  variant :: ProgressRecord
  percent :: "real option"

text \<open>
  The listener registered on the lines of the subprocess's standard error. It returns the
  event it passes to \<^verbatim>\<open>progressCallback\<close>, or \<open>None\<close> when it returns early without
  calling it. The parser is a parameter: any pure \<^verbatim>\<open>parse\<close>.
\<close>

definition on_data :: "(string \<Rightarrow> ParsedLine) \<Rightarrow> string \<Rightarrow> string \<Rightarrow> IPullProgress option" where
  "on_data parser rem line =
     (let progress = parser line in
      if is_Context (variant progress) \<and>
         \<not> startsWith (context_text (variant progress)) ''remote: Counting objects''
      then None
      else Some \<lparr> kind = ''pull'',
                  title = ''Pulling '' @ rem,
                  description = Some (case variant progress of
                                        Progress d \<Rightarrow> details_text d
                                      | Context t \<Rightarrow> t),
                  pvalue = percent progress,
                  remote = rem \<rparr>)"

text \<open>
  The result of the \<^verbatim>\<open>git\<close> helper of \<^verbatim>\<open>./core\<close>, of which \<^verbatim>\<open>pull\<close> reads
  \<^verbatim>\<open>gitErrorDescription\<close> only.
\<close>

record IGitResult =
  gitErrorDescription :: "string option"

text \<open>
  Modelled from the spec: the \<^verbatim>\<open>git\<close> helper of \<^verbatim>\<open>./core\<close> is not among the sources.
  One invocation runs the external tool once; while it runs, the lines of its standard
  error reach the listener installed by \<^verbatim>\<open>processCallback\<close>, in stream order; then the
  promise settles, either rejected with some exception or resolved with a result. What an
  invocation does is a parameter of \<open>pull\<close>, a function of the arguments, the repository
  path and the account (from which the helper's environment is built).
\<close>

record 'x GitRun =
  stderr_lines :: "string list"
  settled :: "'x + IGitResult"

text \<open>
  How \<^verbatim>\<open>pull\<close> can fail: with the \<^verbatim>\<open>GitError\<close> it throws itself, built from the result and
  the arguments, or with whatever the awaited \<^verbatim>\<open>git\<close> promise was rejected with.
\<close>

datatype 'x PullFailure = GitError IGitResult "string list" | Rejected 'x

text \<open>
  What one call of \<^verbatim>\<open>pull\<close> does: the events passed to \<^verbatim>\<open>progressCallback\<close>, in order, the
  argument lists of the \<^verbatim>\<open>git\<close> invocations it makes, and how its promise settles.
\<close>

record 'x PullTrace =
  emitted :: "IPullProgress list"
  git_calls :: "string list list"
  outcome :: "'x PullFailure + unit"

text \<open>
  \<^verbatim>\<open>progressCallback\<close> is optional; \<open>progressCallback\<close> below says whether one was passed,
  and the calls made to it are recorded in \<open>emitted\<close>.
\<close>

definition pull_args :: "string \<Rightarrow> bool \<Rightarrow> string list" where
  "pull_args rem progressCallback =
     (if progressCallback then [''pull'', ''--progress'', rem] else [''pull'', rem])"

definition pull ::
  "(string list \<Rightarrow> string \<Rightarrow> 'a \<Rightarrow> 'x GitRun) \<Rightarrow> (string \<Rightarrow> ParsedLine) \<Rightarrow>
     string \<Rightarrow> 'a \<Rightarrow> string \<Rightarrow> bool \<Rightarrow> 'x PullTrace" where
  "pull git parser path account rem progressCallback =
     (let initial = (if progressCallback
                     then [\<lparr> kind = ''pull'', title = ''Pulling '' @ rem,
                             description = None, pvalue = Some 0, remote = rem \<rparr>]
                     else []);
          args = pull_args rem progressCallback;
          run = git args path account;
          streamed = (if progressCallback
                      then List.map_filter (on_data parser rem) (stderr_lines run)
                      else [])
      in \<lparr> emitted = initial @ streamed,
           git_calls = [args],
           outcome = (case settled run of
                        Inl x \<Rightarrow> Inl (Rejected x)
                      | Inr result \<Rightarrow>
                          if truthy_string (gitErrorDescription result)
                          then Inl (GitError result args)
                          else Inr ()) \<rparr>)"

section \<open>Sample inputs\<close>

text \<open>
  A parser that takes the lines of the remote end for context, with no percent, and every
  other line for a step that is half done; a parser that takes every line for context and
  gives it a percent of one tenth; and two \<^verbatim>\<open>git\<close> invocations, one that succeeds and one
  that reports an error.
\<close>

definition sample_parser :: "string \<Rightarrow> ParsedLine" where
  "sample_parser line =
     (if startsWith line ''remote: ''
      then \<lparr> variant = Context line, percent = None \<rparr>
      else \<lparr> variant = Progress \<lparr> details_text = line, details_percent = 1 / 2 \<rparr>,
             percent = Some (1 / 2) \<rparr>)"


definition sample_git :: "string list \<Rightarrow> string \<Rightarrow> string \<Rightarrow> string GitRun" where
  "sample_git args path account =
     \<lparr> stderr_lines = [''remote: Counting objects: 10% (1/10)'',
                        ''remote: some other informational text'',
                        ''Counting objects: 50% (50/100)''],
       settled = Inr \<lparr> gitErrorDescription = None \<rparr> \<rparr>"

definition failing_git :: "string list \<Rightarrow> string \<Rightarrow> string \<Rightarrow> string GitRun" where
  "failing_git args path account =
     \<lparr> stderr_lines = [],
       settled = Inr \<lparr> gitErrorDescription = Some ''Authentication failed'' \<rparr> \<rparr>"

text \<open>
  A format table with one entry, recognising the lines of the counting phase.
\<close>

definition counting_format :: format where
  "counting_format =
     ((\<lambda>line. if startsWith line ''Counting objects: '' then Some [drop 18 line] else None),
      (\<lambda>groups. \<lparr> details_text = ''Counting objects'', details_percent = 1 / 2 \<rparr>))"

section \<open>Properties of the pull orchestration\<close>

lemma on_data_Context:
  "variant (parser line) = Context t \<Longrightarrow>
     on_data parser rem line =
       (if startsWith t ''remote: Counting objects''
        then Some \<lparr> kind = ''pull'', title = ''Pulling '' @ rem, description = Some t,
                    pvalue = percent (parser line), remote = rem \<rparr>
        else None)"
  by (simp add: on_data_def)

lemma on_data_Progress:
  "variant (parser line) = Progress d \<Longrightarrow>
     on_data parser rem line =
       Some \<lparr> kind = ''pull'', title = ''Pulling '' @ rem, description = Some (details_text d),
              pvalue = percent (parser line), remote = rem \<rparr>"
  by (simp add: on_data_def)

text \<open>
  Claim C2. For a line that parses to a \<open>Context\<close> record, the listener emits an event
  exactly when the record's text starts with \<^verbatim>\<open>remote: Counting objects\<close>; for a line that
  parses to a \<open>Progress\<close> record it always emits one.
\<close>

theorem context_emitted_iff_allow_listed:
  "(variant (parser line) = Context t \<longrightarrow>
      (on_data parser rem line \<noteq> None) = startsWith t ''remote: Counting objects'') \<and>
   (variant (parser line) = Progress d \<longrightarrow> on_data parser rem line \<noteq> None)"
  by (simp add: on_data_Context on_data_Progress)

theorem context_emitted_iff_allow_listed_witness:
  "on_data sample_parser ''origin'' ''remote: Counting objects: 10% (1/10)'' \<noteq> None \<and>
   on_data sample_parser ''origin'' ''remote: some other informational text'' = None \<and>
   on_data sample_parser ''origin'' ''Counting objects: 50% (50/100)'' \<noteq> None"
proof -
  have a: "variant (sample_parser ''remote: Counting objects: 10% (1/10)'') =
             Context ''remote: Counting objects: 10% (1/10)''"
    by (simp add: sample_parser_def startsWith_def)
  have b: "variant (sample_parser ''remote: some other informational text'') =
             Context ''remote: some other informational text''"
    by (simp add: sample_parser_def startsWith_def)
  have c: "variant (sample_parser ''Counting objects: 50% (50/100)'') =
             Progress \<lparr> details_text = ''Counting objects: 50% (50/100)'',
                        details_percent = 1 / 2 \<rparr>"
    by (simp add: sample_parser_def startsWith_def)
  show ?thesis
    using context_emitted_iff_allow_listed
            [where parser = sample_parser and rem = "''origin''"
               and line = "''remote: Counting objects: 10% (1/10)''"
               and t = "''remote: Counting objects: 10% (1/10)''"]
          context_emitted_iff_allow_listed
            [where parser = sample_parser and rem = "''origin''"
               and line = "''remote: some other informational text''"
               and t = "''remote: some other informational text''"]
          context_emitted_iff_allow_listed
            [where parser = sample_parser and rem = "''origin''"
               and line = "''Counting objects: 50% (50/100)''"
               and d = "\<lparr> details_text = ''Counting objects: 50% (50/100)'',
                          details_percent = 1 / 2 \<rparr>"]
    by (simp add: a b c startsWith_def)
qed

text \<open>
  Claim C3. When a \<^verbatim>\<open>progressCallback\<close> is passed, the first event it receives is the
  initial one, of kind \<^verbatim>\<open>pull\<close>, with the title, the remote and the value \<open>0\<close>; the events
  derived from the lines of the subprocess follow it, in stream order. When none is passed
  no event is emitted.
\<close>

theorem initial_event_first:
  "emitted (pull git parser path account rem True) =
     \<lparr> kind = ''pull'', title = ''Pulling '' @ rem, description = None, pvalue = Some 0,
       remote = rem \<rparr>
       # List.map_filter (on_data parser rem)
           (stderr_lines (git [''pull'', ''--progress'', rem] path account)) \<and>
   emitted (pull git parser path account rem False) = []"
  by (simp add: pull_def pull_args_def Let_def)

theorem initial_event_first_witness:
  "emitted (pull sample_git sample_parser ''/repo'' ''me'' ''origin'' True) =
     [\<lparr> kind = ''pull'', title = ''Pulling origin'', description = None, pvalue = Some 0,
        remote = ''origin'' \<rparr>,
      \<lparr> kind = ''pull'', title = ''Pulling origin'',
        description = Some ''remote: Counting objects: 10% (1/10)'', pvalue = None,
        remote = ''origin'' \<rparr>,
      \<lparr> kind = ''pull'', title = ''Pulling origin'',
        description = Some ''Counting objects: 50% (50/100)'', pvalue = Some (1 / 2),
        remote = ''origin'' \<rparr>] \<and>
   emitted (pull sample_git sample_parser ''/repo'' ''me'' ''origin'' False) = []"
  using initial_event_first [of sample_git sample_parser "''/repo''" "''me''" "''origin''"]
  by (simp add: List.map_filter_def on_data_def startsWith_def sample_git_def sample_parser_def)

text \<open>
  Claim C6. Once the \<^verbatim>\<open>git\<close> invocation has completed with a result, \<^verbatim>\<open>pull\<close> throws a
  \<^verbatim>\<open>GitError\<close>, built from that result and the arguments, exactly when the result carries a
  (truthy, that is non-empty) \<^verbatim>\<open>gitErrorDescription\<close>, and returns normally otherwise; in
  both cases \<^verbatim>\<open>git\<close> has been invoked once.
\<close>

theorem pull_throws_iff_error_description:
  "settled (git (pull_args rem cb) path account) = Inr result \<Longrightarrow>
     outcome (pull git parser path account rem cb) =
       (if truthy_string (gitErrorDescription result)
        then Inl (GitError result (pull_args rem cb)) else Inr ()) \<and>
     isl (outcome (pull git parser path account rem cb)) =
       truthy_string (gitErrorDescription result) \<and>
     git_calls (pull git parser path account rem cb) = [pull_args rem cb]"
  by (simp add: pull_def Let_def)

theorem pull_throws_iff_error_description_witness:
  "outcome (pull failing_git sample_parser ''/repo'' ''me'' ''origin'' True) =
     Inl (GitError \<lparr> gitErrorDescription = Some ''Authentication failed'' \<rparr>
            [''pull'', ''--progress'', ''origin'']) \<and>
   git_calls (pull failing_git sample_parser ''/repo'' ''me'' ''origin'' True) =
     [[''pull'', ''--progress'', ''origin'']] \<and>
   outcome (pull sample_git sample_parser ''/repo'' ''me'' ''origin'' False) = Inr () \<and>
   git_calls (pull sample_git sample_parser ''/repo'' ''me'' ''origin'' False) =
     [[''pull'', ''origin'']]"
proof -
  have f: "settled (failing_git (pull_args ''origin'' True) ''/repo'' ''me'') =
             Inr \<lparr> gitErrorDescription = Some ''Authentication failed'' \<rparr>"
    by (simp add: failing_git_def)
  have s: "settled (sample_git (pull_args ''origin'' False) ''/repo'' ''me'') =
             Inr \<lparr> gitErrorDescription = None \<rparr>"
    by (simp add: sample_git_def)
  show ?thesis
    using pull_throws_iff_error_description
            [where git = failing_git and rem = "''origin''" and cb = True and path = "''/repo''"
               and account = "''me''" and parser = sample_parser, OF f]
          pull_throws_iff_error_description
            [where git = sample_git and rem = "''origin''" and cb = False and path = "''/repo''"
               and account = "''me''" and parser = sample_parser, OF s]
    by (simp add: pull_args_def)
qed

text \<open>
  Claim C7. Every event \<^verbatim>\<open>pull\<close> emits has kind \<^verbatim>\<open>pull\<close>, the title \<^verbatim>\<open>Pulling <remote>\<close> and
  the remote it was called with. It is either the initial event (no description, value \<open>0\<close>)
  or comes from a line of the subprocess: then its description is the text of the details
  for a \<open>Progress\<close> record and the text for a \<open>Context\<close> record, and its value is the
  record's percent. As long as the percents of the parser's records lie in \<open>[0, 1]\<close>, so
  does every value that is present.
\<close>

theorem emitted_event_shape:
  assumes bounded: "\<forall>line v. percent (parser line) = Some v \<longrightarrow> 0 \<le> v \<and> v \<le> 1"
      and ev: "ev \<in> set (emitted (pull git parser path account rem cb))"
  shows "kind ev = ''pull'' \<and> title ev = ''Pulling '' @ rem \<and> remote ev = rem \<and>
         ((description ev = None \<and> pvalue ev = Some 0) \<or>
          (\<exists>line \<in> set (stderr_lines (git (pull_args rem cb) path account)).
             description ev = Some (case variant (parser line) of
                                      Progress d \<Rightarrow> details_text d
                                    | Context t \<Rightarrow> t) \<and>
             pvalue ev = percent (parser line))) \<and>
         (\<forall>v. pvalue ev = Some v \<longrightarrow> 0 \<le> v \<and> v \<le> 1)"
proof (cases cb)
  case False
  with ev show ?thesis by (simp add: pull_def Let_def)
next
  case True
  let ?init = "\<lparr> kind = ''pull'', title = ''Pulling '' @ rem, description = None,
                 pvalue = Some (0::real), remote = rem \<rparr>"
  from ev True have "ev = ?init \<or>
      (\<exists>line \<in> set (stderr_lines (git (pull_args rem cb) path account)).
         on_data parser rem line = Some ev)"
    by (auto simp add: pull_def Let_def List.map_filter_def)
  then show ?thesis
  proof
    assume "ev = ?init"
    then show ?thesis by simp
  next
    assume "\<exists>line \<in> set (stderr_lines (git (pull_args rem cb) path account)).
              on_data parser rem line = Some ev"
    then obtain line where mem: "line \<in> set (stderr_lines (git (pull_args rem cb) path account))"
      and em: "on_data parser rem line = Some ev" by blast
    have range: "\<forall>v. percent (parser line) = Some v \<longrightarrow> 0 \<le> v \<and> v \<le> 1"
      using bounded by blast
    show ?thesis
    proof (cases "variant (parser line)")
      case (Context t)
      with em have e: "ev = \<lparr> kind = ''pull'', title = ''Pulling '' @ rem, description = Some t,
                    pvalue = percent (parser line), remote = rem \<rparr>"
        by (simp add: on_data_Context split: if_splits)
      have "description ev = Some (case variant (parser line) of
                                      Progress d \<Rightarrow> details_text d
                                    | Context t \<Rightarrow> t) \<and>
             pvalue ev = percent (parser line)"
        using e Context by simp
      with mem e range show ?thesis by auto
    next
      case (Progress d)
      with em have e: "ev = \<lparr> kind = ''pull'', title = ''Pulling '' @ rem,
                    description = Some (details_text d),
                    pvalue = percent (parser line), remote = rem \<rparr>"
        by (simp add: on_data_Progress)
      have "description ev = Some (case variant (parser line) of
                                      Progress d \<Rightarrow> details_text d
                                    | Context t \<Rightarrow> t) \<and>
             pvalue ev = percent (parser line)"
        using e Progress by simp
      with mem e range show ?thesis by auto
    qed
  qed
qed

lemma sample_parser_bounded:
  "\<forall>line v. percent (sample_parser line) = Some v \<longrightarrow> 0 \<le> v \<and> v \<le> 1"
  by (auto simp add: sample_parser_def split: if_splits)

theorem emitted_event_shape_witness:
  "\<lparr> kind = ''pull'', title = ''Pulling origin'',
     description = Some ''Counting objects: 50% (50/100)'', pvalue = Some (1 / 2),
     remote = ''origin'' \<rparr>
     \<in> set (emitted (pull sample_git sample_parser ''/repo'' ''me'' ''origin'' True)) \<and>
   (0::real) \<le> 1 / 2 \<and> (1 / 2 :: real) \<le> 1"
proof -
  let ?ev = "\<lparr> kind = ''pull'', title = ''Pulling origin'',
     description = Some ''Counting objects: 50% (50/100)'', pvalue = Some (1 / 2 :: real),
     remote = ''origin'' \<rparr>"
  have mem: "?ev \<in> set (emitted (pull sample_git sample_parser ''/repo'' ''me'' ''origin'' True))"
    by (simp add: pull_def Let_def List.map_filter_def on_data_def startsWith_def
          sample_git_def sample_parser_def)
  from emitted_event_shape [OF sample_parser_bounded mem] mem show ?thesis by simp
qed




section \<open>Properties of the line parser\<close>

text \<open>
  Claim C4. \<^verbatim>\<open>parse\<close> returns a record for every line: a \<open>Context\<close> record with the line
  unchanged, or the \<open>Progress\<close> record of a format that matches the line; and a line that
  no format matches yields the \<open>Context\<close> record with the line unchanged.
\<close>

theorem parse_falls_back_to_context:
  "((\<forall>f \<in> set formats. fst f line = None) \<longrightarrow> parse formats line = Context line) \<and>
   (parse formats line = Context line \<or>
    (\<exists>f \<in> set formats. \<exists>groups. fst f line = Some groups \<and>
        parse formats line = Progress (snd f groups)))"
  by (induction formats line rule: parse.induct) (auto split: option.splits)

theorem parse_falls_back_to_context_witness:
  "fst counting_format ''From github.com:desktop/desktop'' = None \<and>
   parse [counting_format] ''From github.com:desktop/desktop'' =
     Context ''From github.com:desktop/desktop'' \<and>
   parse [counting_format] ''Counting objects: 50% (50/100)'' =
     Progress \<lparr> details_text = ''Counting objects'', details_percent = 1 / 2 \<rparr>"
  using parse_falls_back_to_context [of "[counting_format]" "''From github.com:desktop/desktop''"]
        parse_falls_back_to_context [of "[counting_format]" "''Counting objects: 50% (50/100)''"]
  by (simp add: counting_format_def startsWith_def)

section \<open>Properties of the sidebar\<close>

subsection \<open>Reading back a persisted width\<close>

lemma isDigit_digit_char: "d < 10 \<Longrightarrow> isDigit (digit_char d)"
  by (simp add: isDigit_def digit_char_def)

lemma digit_val_digit_char: "d < 10 \<Longrightarrow> digit_val (digit_char d) = d"
  by (simp add: digit_val_def digit_char_def)

lemma digits_of_all_digits: "\<forall>c \<in> set (digits_of n). isDigit c"
proof (induction n rule: digits_of.induct)
  case (1 n)
  show ?case
  proof (cases "n < 10")
    case True
    then show ?thesis by (subst digits_of.simps) (simp add: isDigit_digit_char)
  next
    case False
    with 1 show ?thesis by (subst digits_of.simps) (simp add: isDigit_digit_char)
  qed
qed

lemma digits_of_nonempty: "digits_of n \<noteq> []"
  by (subst digits_of.simps) simp

lemma digits_val_snoc: "digits_val (Z @ [c]) = 10 * digits_val Z + digit_val c"
  by (simp add: digits_val_def)

lemma digits_val_digits_of: "digits_val (digits_of n) = n"
proof (induction n rule: digits_of.induct)
  case (1 n)
  show ?case
  proof (cases "n < 10")
    case True
    then show ?thesis
      by (subst digits_of.simps) (simp add: digits_val_def digit_val_digit_char)
  next
    case False
    with 1 have "digits_val (digits_of (n div 10)) = n div 10" by simp
    with False show ?thesis
      by (subst digits_of.simps) (simp add: digits_val_snoc digit_val_digit_char)
  qed
qed

lemma isDigit_not_space: "isDigit c \<Longrightarrow> \<not> isWhiteSpace c"
  by (auto simp add: isDigit_def isWhiteSpace_def)

lemma isDigit_not_sign: "isDigit c \<Longrightarrow> c \<noteq> CHR ''-'' \<and> c \<noteq> CHR ''+''"
  by (auto simp add: isDigit_def)

lemma parseInt_digits:
  assumes "Z \<noteq> []" and "\<forall>c \<in> set Z. isDigit c"
  shows "parseInt (Some Z) = Num (int (digits_val Z))"
proof -
  from assms obtain c cs where Z: "Z = c # cs" and c: "isDigit c"
    by (cases Z) auto
  have tw: "takeWhile isDigit Z = Z"
    using assms(2) by (simp add: takeWhile_eq_all_conv)
  have dw: "dropWhile isWhiteSpace Z = Z"
    using Z isDigit_not_space [OF c] by simp
  have sign: "hd Z \<noteq> CHR ''-''" "hd Z \<noteq> CHR ''+''"
    using Z isDigit_not_sign [OF c] by simp_all
  show ?thesis
    using assms(1) by (simp add: parseInt_def Let_def dw tw sign)
qed

lemma parseInt_minus_digits:
  assumes "Z \<noteq> []" and "\<forall>c \<in> set Z. isDigit c"
  shows "parseInt (Some (CHR ''-'' # Z)) = Num (- int (digits_val Z))"
proof -
  have tw: "takeWhile isDigit Z = Z"
    using assms(2) by (simp add: takeWhile_eq_all_conv)
  have "\<not> isWhiteSpace CHR ''-''" by (simp add: isWhiteSpace_def)
  then show ?thesis
    using assms(1) by (simp add: parseInt_def Let_def tw)
qed

lemma parseInt_toString: "parseInt (Some (toString (Num n))) = Num n"
proof (cases "n < 0")
  case True
  then show ?thesis
    by (simp add: parseInt_minus_digits digits_of_nonempty digits_of_all_digits
          digits_val_digits_of)
next
  case False
  then show ?thesis
    by (simp add: parseInt_digits digits_of_nonempty digits_of_all_digits
          digits_val_digits_of)
qed

lemma parseInt_null: "parseInt None = NaN"
  by (simp add: parseInt_def isWhiteSpace_def isDigit_def)

text \<open>
  Claim C8, as the code has it. With no entry under the key, \<^verbatim>\<open>parseInt\<close> yields \<^verbatim>\<open>NaN\<close>,
  which is falsy, and the width used for rendering is \<open>defaultWidth\<close>. With the decimal
  rendering of an integer other than \<open>0\<close> under the key, that integer is the width used. A
  persisted \<open>0\<close> is falsy as well and gives \<open>defaultWidth\<close>.
\<close>

theorem current_width_from_storage:
  "(localStorage sidebarWidthConfigKey = None \<longrightarrow>
      render_width (new_Sidebar p localStorage) = defaultWidth p) \<and>
   (localStorage sidebarWidthConfigKey = Some (toString (Num n)) \<and> n \<noteq> 0 \<longrightarrow>
      render_width (new_Sidebar p localStorage) = Num n) \<and>
   (localStorage sidebarWidthConfigKey = Some (toString (Num 0)) \<longrightarrow>
      render_width (new_Sidebar p localStorage) = defaultWidth p)"
  by (simp add: render_width_def getCurrentWidth_def new_Sidebar_def getPersistedWidth_def
        parseInt_null parseInt_toString del: toString.simps)

theorem current_width_from_storage_witness:
  "render_width (new_Sidebar defaultProps Map.empty) = Num 250 \<and>
   render_width (new_Sidebar defaultProps (Map.empty(sidebarWidthConfigKey \<mapsto> ''300''))) = Num 300 \<and>
   render_width (new_Sidebar defaultProps (Map.empty(sidebarWidthConfigKey \<mapsto> ''-7''))) = Num (- 7)"
proof -
  have a: "toString (Num 300) = ''300''" by code_simp
  have b: "toString (Num (- 7)) = ''-7''" by code_simp
  show ?thesis
    using current_width_from_storage
            [where localStorage = Map.empty and p = defaultProps and n = 1]
          current_width_from_storage
            [where localStorage = "Map.empty(sidebarWidthConfigKey \<mapsto> ''300'')"
               and n = 300 and p = defaultProps]
          current_width_from_storage
            [where localStorage = "Map.empty(sidebarWidthConfigKey \<mapsto> ''-7'')"
               and n = "- 7" and p = defaultProps]
    by (simp add: a b defaultProps_def del: toString.simps)
qed

text \<open>
  The claim as stated fails for the persisted integer \<open>0\<close>: it is read back as \<open>0\<close>, but
  the width used for rendering is the default one, \<open>250\<close>.
\<close>

theorem persisted_zero_is_not_used:
  "getPersistedWidth (Map.empty(sidebarWidthConfigKey \<mapsto> ''0'')) = Num 0 \<and>
   render_width (new_Sidebar defaultProps (Map.empty(sidebarWidthConfigKey \<mapsto> ''0''))) = Num 250 \<and>
   render_width (new_Sidebar defaultProps (Map.empty(sidebarWidthConfigKey \<mapsto> ''0''))) \<noteq> Num 0"
proof -
  have "parseInt (Some ''0'') = Num 0" by code_simp
  then show ?thesis
    by (simp add: render_width_def getCurrentWidth_def new_Sidebar_def getPersistedWidth_def
          defaultProps_def)
qed

subsection \<open>Dragging the resize handle\<close>

lemma queue_arms_action:
  "timeoutId (fst (queue action (s, T))) = Some (nextHandle T) \<and>
   armed (snd (queue action (s, T))) =
     (case timeoutId s of
        None \<Rightarrow> armed T
      | Some h \<Rightarrow> filter (\<lambda>(i, due, f). i \<noteq> h) (armed T))
     @ [(nextHandle T, now T + delay s, action)] \<and>
   now (snd (queue action (s, T))) = now T \<and>
   nextHandle (snd (queue action (s, T))) = Suc (nextHandle T) \<and>
   delay (fst (queue action (s, T))) = delay s"
  by (simp add: queue_def setTimeout_def clearTimeout_def Let_def split: option.splits)

lemma handleDragStart_ready:
  "startX (handleDragStart e c) = clientX e \<and> startWidth (handleDragStart e c) \<noteq> Some NaN \<and>
   props (handleDragStart e c) = props c"
  by (cases "getCurrentWidth c") (simp_all add: handleDragStart_def)

text \<open>
  Claim C9. During a drag (\<open>handleDragStart\<close> has recorded a start position and a start
  width, which is never \<^verbatim>\<open>NaN\<close>), with numeric bounds \<open>minimumWidth \<le> maximumWidth\<close>, a
  step of \<open>handleDragMove\<close> stores a width within the bounds in the component state and
  queues the write of that same width under the sidebar's key; once written, it is the
  width read back from storage.
\<close>

theorem drag_move_clamps_width:
  assumes lo: "minimumWidth (props c) = Num lo"
      and hi: "maximumWidth (props c) = Num hi"
      and le: "lo \<le> hi"
      and x: "clientX e = Num x"
      and x0: "startX c = Num x0"
      and sw: "startWidth c \<noteq> Some NaN"
  shows "\<exists>w. lo \<le> w \<and> w \<le> hi \<and>
           width (state (fst (handleDragMove e (c, T)))) = Some (Num w) \<and>
           timeoutId (configWriteScheduler (fst (handleDragMove e (c, T)))) =
             Some (nextHandle T) \<and>
           last (armed (snd (handleDragMove e (c, T)))) =
             (nextHandle T, now T + delay (configWriteScheduler c),
              SetItem sidebarWidthConfigKey (toString (Num w))) \<and>
           getPersistedWidth
             (perform (SetItem sidebarWidthConfigKey (toString (Num w))) localStorage) = Num w"
proof -
  from sw obtain w0 where w0: "ToNumber (startWidth c) = Num w0"
    by (cases "startWidth c") (auto intro: number.exhaust)
  let ?w = "max lo (min hi (w0 + (x - x0)))"
  have clamp: "Math_max (minimumWidth (props c))
                 (Math_min (maximumWidth (props c))
                    (js_plus (ToNumber (startWidth c)) (js_minus (clientX e) (startX c)))) =
               Num ?w"
    by (simp add: lo hi x x0 w0)
  have "lo \<le> ?w \<and> ?w \<le> hi" using le by auto
  moreover have "width (state (fst (handleDragMove e (c, T)))) = Some (Num ?w)"
    by (simp add: handleDragMove_def setPersistedWidth_def Let_def clamp split_beta
          del: toString.simps)
  moreover have "timeoutId (configWriteScheduler (fst (handleDragMove e (c, T)))) =
             Some (nextHandle T)"
    by (simp add: handleDragMove_def setPersistedWidth_def Let_def clamp split_beta
          queue_arms_action del: toString.simps)
  moreover have "last (armed (snd (handleDragMove e (c, T)))) =
             (nextHandle T, now T + delay (configWriteScheduler c),
              SetItem sidebarWidthConfigKey (toString (Num ?w)))"
    by (simp add: handleDragMove_def setPersistedWidth_def Let_def clamp split_beta
          queue_arms_action del: toString.simps)
  moreover have "getPersistedWidth
      (perform (SetItem sidebarWidthConfigKey (toString (Num ?w))) localStorage) = Num ?w"
    by (simp add: getPersistedWidth_def parseInt_toString del: toString.simps)
  ultimately show ?thesis by blast
qed

theorem drag_move_clamps_width_witness:
  "width (state (fst (handleDragMove \<lparr> clientX = Num 500 \<rparr>
      (handleDragStart \<lparr> clientX = Num 100 \<rparr> (new_Sidebar defaultProps Map.empty),
       \<lparr> now = 0, nextHandle = 1, armed = [] \<rparr>)))) = Some (Num 350) \<and>
   armed (snd (handleDragMove \<lparr> clientX = Num 500 \<rparr>
      (handleDragStart \<lparr> clientX = Num 100 \<rparr> (new_Sidebar defaultProps Map.empty),
       \<lparr> now = 0, nextHandle = 1, armed = [] \<rparr>))) =
     [(1, 300, SetItem ''sidebar-width'' ''350'')]"
proof -
  let ?c = "handleDragStart \<lparr> clientX = Num 100 \<rparr> (new_Sidebar defaultProps Map.empty)"
  let ?T = "\<lparr> now = 0, nextHandle = 1, armed = [] \<rparr> :: StorageAction Timers"
  have lo: "minimumWidth (props ?c) = Num 150"
    by (simp add: handleDragStart_def new_Sidebar_def defaultProps_def)
  have hi: "maximumWidth (props ?c) = Num 350"
    by (simp add: handleDragStart_def new_Sidebar_def defaultProps_def)
  have le: "(150::int) \<le> 350" by simp
  have x: "clientX \<lparr> clientX = Num 500 \<rparr> = Num 500" by simp
  have x0: "startX ?c = Num 100" by (simp add: handleDragStart_def)
  have sw: "startWidth ?c \<noteq> Some NaN" by (simp add: handleDragStart_ready)
  have str: "toString (Num 350) = ''350''" by code_simp
  have null: "parseInt None = NaN" by (simp add: parseInt_def isWhiteSpace_def isDigit_def)
  have st: "startWidth ?c = Some (Num 250)"
    by (simp add: handleDragStart_def new_Sidebar_def defaultProps_def getCurrentWidth_def
          getPersistedWidth_def null)
  have q: "configWriteScheduler ?c = \<lparr> delay = 300, timeoutId = None \<rparr>"
    by (simp add: handleDragStart_def new_Sidebar_def new_ThrottledScheduler_def)
  have run: "handleDragMove \<lparr> clientX = Num 500 \<rparr> (?c, ?T) =
      (?c \<lparr> state := \<lparr> width = Some (Num 350) \<rparr>,
           configWriteScheduler := \<lparr> delay = 300, timeoutId = Some 1 \<rparr> \<rparr>,
       \<lparr> now = 0, nextHandle = 2, armed = [(1, 300, SetItem ''sidebar-width'' ''350'')] \<rparr>)"
    by (simp add: handleDragMove_def setPersistedWidth_def Let_def lo hi x0 st q str
          queue_def setTimeout_def sidebarWidthConfigKey_def del: toString.simps)
  have arm: "armed (snd (handleDragMove \<lparr> clientX = Num 500 \<rparr> (?c, ?T))) =
               [(1, 300, SetItem ''sidebar-width'' ''350'')]"
    by (simp only: run snd_conv Timers.simps)
  from drag_move_clamps_width [OF lo hi le x x0 sw, of ?T]
  obtain w where w: "150 \<le> w" "w \<le> 350"
      "width (state (fst (handleDragMove \<lparr> clientX = Num 500 \<rparr> (?c, ?T)))) = Some (Num w)"
    by blast
  have "width (state (fst (handleDragMove \<lparr> clientX = Num 500 \<rparr> (?c, ?T)))) = Some (Num 350)"
    by (subst run) simp
  with w(3) have "w = 350" by simp
  with w(3) arm show ?thesis by simp
qed

section \<open>Properties of the throttled scheduler\<close>

lemma step_Queue_idle:
  assumes "armed (timers w) = []"
  shows "armed (timers (step w (Queue b))) =
           [(nextHandle (timers w), now (timers w) + delay (scheduler w), b)] \<and>
         timeoutId (scheduler (step w (Queue b))) = Some (nextHandle (timers w)) \<and>
         now (timers (step w (Queue b))) = now (timers w) \<and>
         delay (scheduler (step w (Queue b))) = delay (scheduler w) \<and>
         executed (step w (Queue b)) = executed w"
  using assms
  by (simp add: queue_def setTimeout_def clearTimeout_def Let_def split: option.splits)

lemma step_Queue_pending:
  assumes "armed (timers w) = [(h, due, a)]" and "timeoutId (scheduler w) = Some h"
  shows "armed (timers (step w (Queue b))) =
           [(nextHandle (timers w), now (timers w) + delay (scheduler w), b)] \<and>
         timeoutId (scheduler (step w (Queue b))) = Some (nextHandle (timers w)) \<and>
         now (timers (step w (Queue b))) = now (timers w) \<and>
         delay (scheduler (step w (Queue b))) = delay (scheduler w) \<and>
         executed (step w (Queue b)) = executed w"
  using assms
  by (simp add: queue_def setTimeout_def clearTimeout_def Let_def)

lemma step_Elapse_idle:
  assumes "armed (timers w) = []"
  shows "armed (timers (step w (Elapse n))) = [] \<and>
         delay (scheduler (step w (Elapse n))) = delay (scheduler w) \<and>
         executed (step w (Elapse n)) = executed w"
  using assms by (simp add: advance_def Let_def)

lemma step_Elapse_waiting:
  assumes "armed (timers w) = [(h, due, a)]" and "now (timers w) + n < due"
  shows "armed (timers (step w (Elapse n))) = [(h, due, a)] \<and>
         timeoutId (scheduler (step w (Elapse n))) = timeoutId (scheduler w) \<and>
         now (timers (step w (Elapse n))) = now (timers w) + n \<and>
         delay (scheduler (step w (Elapse n))) = delay (scheduler w) \<and>
         executed (step w (Elapse n)) = executed w"
  using assms by (simp add: advance_def Let_def)

lemma step_Elapse_fires:
  assumes "armed (timers w) = [(h, due, a)]" and "due \<le> now (timers w) + n"
  shows "armed (timers (step w (Elapse n))) = [] \<and>
         delay (scheduler (step w (Elapse n))) = delay (scheduler w) \<and>
         executed (step w (Elapse n)) = executed w @ [a]"
  using assms by (simp add: advance_def Let_def)

lemma run_Cons: "run w (e # es) = run (step w e) es"
  by (simp add: run_def)

lemma run_Nil: "run w [] = w"
  by (simp add: run_def)

lemma run_settled:
  assumes "D \<le> el" and "within_window D el es" and "armed (timers w) = []"
  shows "executed (run w es) = executed w \<and> armed (timers (run w es)) = [] \<and>
         D \<le> settle_time el es \<and> last_action a es = a"
  using assms
proof (induction es arbitrary: w el)
  case Nil
  then show ?case by (simp add: run_Nil)
next
  case (Cons e es)
  show ?case
  proof (cases e)
    case (Queue b)
    with Cons.prems show ?thesis by simp
  next
    case (Elapse n)
    have idle: "armed (timers (step w (Elapse n))) = []"
      and ex: "executed (step w (Elapse n)) = executed w"
      using step_Elapse_idle [OF Cons.prems(3)] by simp_all
    have "D \<le> el + n" using Cons.prems(1) by simp
    moreover have "within_window D (el + n) es" using Cons.prems(2) Elapse by simp
    ultimately have "executed (run (step w (Elapse n)) es) = executed (step w (Elapse n)) \<and>
        armed (timers (run (step w (Elapse n)) es)) = [] \<and>
        D \<le> settle_time (el + n) es \<and> last_action a es = a"
      using Cons.IH idle by blast
    then show ?thesis by (simp add: Elapse run_Cons ex del: step.simps)
  qed
qed

lemma run_pending:
  assumes "delay (scheduler w) = D"
      and "timeoutId (scheduler w) = Some h"
      and "armed (timers w) = [(h, due, a)]"
      and "due + el = now (timers w) + D"
      and "el < D"
      and "within_window D el es"
  shows "executed (run w es) =
           executed w @ (if D \<le> settle_time el es then [last_action a es] else []) \<and>
         map (\<lambda>(i, due, f). f) (armed (timers (run w es))) =
           (if D \<le> settle_time el es then [] else [last_action a es])"
  using assms
proof (induction es arbitrary: w h due a el)
  case Nil
  then show ?case by (simp add: run_Nil)
next
  case (Cons e es)
  show ?case
  proof (cases e)
    case (Queue b)
    let ?w = "step w (Queue b)"
    note q = step_Queue_pending [OF Cons.prems(3) Cons.prems(2), of b]
    have win: "within_window D 0 es" using Cons.prems(6) Queue by simp
    have pos: "0 < D" using Cons.prems(5) by simp
    have "executed (run ?w es) =
            executed ?w @ (if D \<le> settle_time 0 es then [last_action b es] else []) \<and>
          map (\<lambda>(i, due, f). f) (armed (timers (run ?w es))) =
            (if D \<le> settle_time 0 es then [] else [last_action b es])"
    proof (rule Cons.IH [where h = "nextHandle (timers w)" and due = "now (timers w) + D"])
      show "delay (scheduler ?w) = D" using q Cons.prems(1) by simp
      show "timeoutId (scheduler ?w) = Some (nextHandle (timers w))" using q by simp
      show "armed (timers ?w) = [(nextHandle (timers w), now (timers w) + D, b)]"
        using q Cons.prems(1) by simp
      show "now (timers w) + D + 0 = now (timers ?w) + D" using q by simp
      show "0 < D" by (rule pos)
      show "within_window D 0 es" by (rule win)
    qed
    then show ?thesis using q by (simp add: Queue run_Cons del: step.simps)
  next
    case (Elapse n)
    let ?w = "step w (Elapse n)"
    have win: "within_window D (el + n) es" using Cons.prems(6) Elapse by simp
    show ?thesis
    proof (cases "el + n < D")
      case True
      have wait: "now (timers w) + n < due" using Cons.prems(4) True by simp
      note s = step_Elapse_waiting [OF Cons.prems(3) wait]
      have "executed (run ?w es) =
              executed ?w @ (if D \<le> settle_time (el + n) es then [last_action a es] else []) \<and>
            map (\<lambda>(i, due, f). f) (armed (timers (run ?w es))) =
              (if D \<le> settle_time (el + n) es then [] else [last_action a es])"
      proof (rule Cons.IH [where h = h and due = due])
        show "delay (scheduler ?w) = D" using s Cons.prems(1) by simp
        show "timeoutId (scheduler ?w) = Some h" using s Cons.prems(2) by simp
        show "armed (timers ?w) = [(h, due, a)]" using s by simp
        show "due + (el + n) = now (timers ?w) + D" using s Cons.prems(4) by simp
        show "el + n < D" by (rule True)
        show "within_window D (el + n) es" by (rule win)
      qed
      then show ?thesis using s by (simp add: Elapse run_Cons del: step.simps)
    next
      case False
      have fire: "due \<le> now (timers w) + n" using Cons.prems(4) False by simp
      note s = step_Elapse_fires [OF Cons.prems(3) fire]
      have idle: "armed (timers ?w) = []" using s by simp
      have late: "D \<le> el + n" using False by simp
      note r = run_settled [OF late win idle, of a]
      then show ?thesis using s by (simp add: Elapse run_Cons del: step.simps)
    qed
  qed
qed

text \<open>
  Claim C1. Take a scheduler of delay \<open>D > 0\<close> with no timer armed, a call of \<^verbatim>\<open>queue\<close>, and
  any further calls that stay within the throttle window (each less than \<open>D\<close> milliseconds
  after the call before it), with time passing in between and afterwards. Before \<open>D\<close>
  milliseconds have passed since the last call nothing has been executed and the only
  action still armed is the one of the last call; from then on exactly that action has been
  executed, once, and no timer remains armed, so no action of an earlier call ever runs.
\<close>

theorem last_queued_action_runs_once:
  assumes "0 < D"
      and "delay (scheduler w) = D"
      and "armed (timers w) = []"
      and "within_window D 0 es"
  shows "executed (run w (Queue a # es)) =
           executed w @ (if D \<le> settle_time 0 es then [last_action a es] else []) \<and>
         map (\<lambda>(i, due, f). f) (armed (timers (run w (Queue a # es)))) =
           (if D \<le> settle_time 0 es then [] else [last_action a es])"
proof -
  let ?w = "step w (Queue a)"
  note q = step_Queue_idle [OF assms(3), of a]
  have "executed (run ?w es) =
          executed ?w @ (if D \<le> settle_time 0 es then [last_action a es] else []) \<and>
        map (\<lambda>(i, due, f). f) (armed (timers (run ?w es))) =
          (if D \<le> settle_time 0 es then [] else [last_action a es])"
  proof (rule run_pending [where h = "nextHandle (timers w)" and due = "now (timers w) + D"])
    show "delay (scheduler ?w) = D" using q assms(2) by simp
    show "timeoutId (scheduler ?w) = Some (nextHandle (timers w))" using q by simp
    show "armed (timers ?w) = [(nextHandle (timers w), now (timers w) + D, a)]"
      using q assms(2) by simp
    show "now (timers w) + D + 0 = now (timers ?w) + D" using q by simp
    show "0 < D" by (rule assms(1))
    show "within_window D 0 es" by (rule assms(4))
  qed
  then show ?thesis using q by (simp add: run_Cons del: step.simps)
qed


theorem last_queued_action_runs_once_witness:
  "executed (run (new_Host 300)
      [Queue ''a'', Elapse 100, Queue ''b'', Elapse 299, Queue ''c'', Elapse 200, Elapse 100]) =
     [''c''] \<and>
   armed (timers (run (new_Host 300)
      [Queue ''a'', Elapse 100, Queue ''b'', Elapse 299, Queue ''c'', Elapse 200, Elapse 100])) = []"
  using last_queued_action_runs_once
          [where D = 300 and w = "new_Host 300" and a = "''a''"
             and es = "[Elapse 100, Queue ''b'', Elapse 299, Queue ''c'', Elapse 200, Elapse 100]"]
  by (simp add: new_Host_def new_ThrottledScheduler_def)

text \<open>
  The bound of the window is sharp: a call that comes exactly \<open>D\<close> milliseconds after the
  previous one finds that one already executed.
\<close>

lemma queue_at_window_end_runs_both:
  "executed (run (new_Host 300) [Queue ''a'', Elapse 300, Queue ''b'', Elapse 300]) =
     [''a'', ''b'']"
  by (simp add: run_def new_Host_def new_ThrottledScheduler_def queue_def setTimeout_def
        clearTimeout_def advance_def Let_def)

end
